theory Spec2Isabelle
  imports Main "HOL-Library.Multiset"
begin

section \<open>The duration parser (\<^verbatim>\<open>parse_duration\<close>, youtube\_with\_replies.py lines 23--47)\<close>


definition is_digit :: "char \<Rightarrow> bool" where
  "is_digit c = (c \<in> set ''0123456789'')"




text \<open>
  \<^verbatim>\<open>re.match(r"PT(?:(\d+)H)?(?:(\d+)M)?(?:(\d+)S)?", duration)\<close>.
  One optional group \<^verbatim>\<open>(?:(\d+)X)?\<close> at the head of \<open>s\<close>: the greedy \<^verbatim>\<open>\d+\<close> takes the
  whole run of digits; giving digits back cannot help, because the character after a
  shorter run is a digit and not the unit letter. So the group takes part exactly when
  the run is non-empty and the unit letter follows it, and otherwise matches empty.
  Nothing after the three groups can fail, so no later backtracking revises a choice.
\<close>

definition optional_component :: "char \<Rightarrow> string \<Rightarrow> string option \<times> string" where
  "optional_component unit s =
     (let ds = takeWhile is_digit s in
      case dropWhile is_digit s of
        [] \<Rightarrow> (None, s)
      | c # rest \<Rightarrow> if ds \<noteq> [] \<and> c = unit then (Some ds, rest) else (None, s))"





subsection \<open>Well-formed duration tokens\<close>







section \<open>The remote service and the data it returns\<close>

text \<open>
  A paginated listing as the client meets it. Executing a request either raises
  \<^verbatim>\<open>HttpError\<close> (kept as its text \<^verbatim>\<open>str(e)\<close>), or answers with a page of items and no
  continuation (\<^verbatim>\<open>list_next\<close> gives \<^verbatim>\<open>None\<close>), or with a page and a further request.
  A response without \<^verbatim>\<open>items\<close> is the empty page. Listings are finite: the remote
  service ends every pagination.
\<close>

datatype 'a pages = Fails string | Last "'a list" | More "'a list" "'a pages"

text \<open>
  Keys the code reads with \<^verbatim>\<open>[...]\<close> are record fields; keys read with \<^verbatim>\<open>.get\<close> or
  tested with \<^verbatim>\<open>in\<close> are optional. Counts arrive as numbers.
\<close>

record comment_snippet =
  authorDisplayName :: string
  textDisplay :: string
  likeCount :: int
  publishedAt :: string

record reply_resource =
  reply_id :: string
  reply_snippet :: comment_snippet

text \<open>
  \<open>replies\<close> is \<open>None\<close> when the item has no \<^verbatim>\<open>replies\<close> key (or no \<^verbatim>\<open>comments\<close> under
  it: both leave the inline loop without a reply and give \<^verbatim>\<open>fetched_replies = 0\<close>).
\<close>

record thread_resource =
  thread_id :: string
  topLevelComment :: comment_snippet
  totalReplyCount :: "int option"
  replies :: "reply_resource list option"

record search_resource =
  videoId :: string
  snippet_title :: string
  snippet_channelTitle :: string
  snippet_publishedAt :: string

record video_resource =
  resource_id :: string
  statistics_viewCount :: "int option"
  statistics_likeCount :: "int option"
  statistics_commentCount :: "int option"
  contentDetails_duration :: "string option"
  snippet_description :: "string option"

text \<open>
  The service object: what each endpoint answers for the parameters the code varies.
  \<open>Inl\<close> is an \<^verbatim>\<open>HttpError\<close> with its text.
\<close>

record youtube =
  search_list :: "string \<Rightarrow> int \<Rightarrow> string + search_resource list"
  videos_list :: "string list \<Rightarrow> string + video_resource list"
  commentThreads_list :: "string \<Rightarrow> thread_resource pages"
  comments_list :: "string \<Rightarrow> reply_resource pages"

section \<open>The program's own data\<close>

text \<open>The comment dictionary of \<^verbatim>\<open>get_video_comments\<close>, and the same with the video columns added.\<close>

record comment =
  video_id :: string
  comment_id :: string
  parent_id :: "string option"
  is_reply :: bool
  author :: string
  comment_text :: string
  comment_like_count :: int
  comment_published_at :: string

record row = comment +
  relevance_rank :: nat
  video_title :: string
  video_channel :: string
  video_published_at :: string
  video_view_count :: int
  video_like_count :: int
  video_comment_count :: int
  video_duration :: int
  video_description :: string

text \<open>
  The detail dictionary of \<^verbatim>\<open>get_video_details\<close> (its keys carry the prefix \<open>d_\<close> here).
\<close>

record video_details =
  d_view_count :: int
  d_like_count :: int
  d_comment_count :: int
  d_duration :: int
  d_description :: string

text \<open>
  The video dictionary of \<^verbatim>\<open>search_videos\<close>. \<^verbatim>\<open>video.update(details[vid_id])\<close> adds the five
  detail keys together, so they are present together (\<open>Some\<close>) or absent together.
\<close>

record video =
  v_video_id :: string
  v_relevance_rank :: nat
  v_title :: string
  v_channel :: string
  v_video_published_at :: string
  v_details :: "video_details option"

section \<open>Effects: requests issued, lines printed, files written\<close>

datatype request =
    SearchList string int
  | VideosList "string list"
  | CommentThreadsList string
  | CommentsList string

datatype message =
    DetailsHttpError string
  | SearchHttpError string
  | ReplyFetchError string string
  | CollectedCounts nat nat
  | CommentsDisabled string
  | VideoHttpError string string
  | ApiKeyMissing
  | Searching string
  | NoVideosFound
  | FoundVideos nat
  | Processing nat nat string
  | CollectedItems nat nat nat
  | Scraped nat nat
  | TotalItems nat
  | SavedTo string
  | NoCommentsCollected

text \<open>
  \<open>requests\<close> logs every \<^verbatim>\<open>execute()\<close> in order, \<open>stdout\<close> every \<^verbatim>\<open>print\<close>, \<open>files\<close> maps a
  path to the rows of the CSV written there. The pauses (\<^verbatim>\<open>time.sleep\<close>) and the creation
  of the \<^verbatim>\<open>data\<close> directory are left out.
\<close>

record world =
  requests :: "request list"
  stdout :: "message list"
  files :: "string \<rightharpoonup> row list"

definition execute :: "request \<Rightarrow> world \<Rightarrow> world" where
  "execute r w = w\<lparr>requests := requests w @ [r]\<rparr>"

definition print :: "message \<Rightarrow> world \<Rightarrow> world" where
  "print m w = w\<lparr>stdout := stdout w @ [m]\<rparr>"

text \<open>Python's \<^verbatim>\<open>sub in s\<close> on strings.\<close>

fun contains :: "string \<Rightarrow> string \<Rightarrow> bool" where
  "contains sub [] = (sub = [])"
| "contains sub (c # s) = (take (length sub) (c # s) = sub \<or> contains sub s)"

section \<open>\<^verbatim>\<open>get_video_details\<close> and \<^verbatim>\<open>search_videos\<close> (lines 50--138)\<close>

definition or_zero :: "int option \<Rightarrow> int" where
  "or_zero x = (case x of None \<Rightarrow> 0 | Some n \<Rightarrow> n)"





definition video_stub :: "nat \<times> search_resource \<Rightarrow> video" where
  "video_stub p =
     (case p of (rank, item) \<Rightarrow>
        \<lparr>v_video_id = videoId item, v_relevance_rank = rank, v_title = snippet_title item,
         v_channel = snippet_channelTitle item, v_video_published_at = snippet_publishedAt item,
         v_details = None\<rparr>)"

definition enrich :: "(string \<rightharpoonup> video_details) \<Rightarrow> video \<Rightarrow> video" where
  "enrich details v =
     (case details (v_video_id v) of None \<Rightarrow> v | Some d \<Rightarrow> v\<lparr>v_details := Some d\<rparr>)"


section \<open>\<^verbatim>\<open>get_video_comments\<close> (lines 141--264)\<close>

text \<open>The function's local variables.\<close>

record collected =
  comments :: "comment list"
  comment_count :: nat
  reply_count :: nat

definition comment_data :: "string \<Rightarrow> thread_resource \<Rightarrow> comment" where
  "comment_data vid item =
     \<lparr>video_id = vid, comment_id = thread_id item, parent_id = None, is_reply = False,
      author = authorDisplayName (topLevelComment item),
      comment_text = textDisplay (topLevelComment item),
      comment_like_count = likeCount (topLevelComment item),
      comment_published_at = publishedAt (topLevelComment item)\<rparr>"

definition reply_data :: "string \<Rightarrow> string \<Rightarrow> reply_resource \<Rightarrow> comment" where
  "reply_data vid cid reply =
     \<lparr>video_id = vid, comment_id = reply_id reply, parent_id = Some cid, is_reply = True,
      author = authorDisplayName (reply_snippet reply),
      comment_text = textDisplay (reply_snippet reply),
      comment_like_count = likeCount (reply_snippet reply),
      comment_published_at = publishedAt (reply_snippet reply)\<rparr>"

text \<open>Lines 188--201: an inline reply is appended as it comes.\<close>

definition append_reply :: "string \<Rightarrow> string \<Rightarrow> collected \<Rightarrow> reply_resource \<Rightarrow> collected" where
  "append_reply vid cid a reply =
     a\<lparr>comments := comments a @ [reply_data vid cid reply], reply_count := reply_count a + 1\<rparr>"

text \<open>Lines 223--241: a reply of the reply listing is skipped when its id is already collected.\<close>

definition append_new_reply :: "string \<Rightarrow> string \<Rightarrow> collected \<Rightarrow> reply_resource \<Rightarrow> collected" where
  "append_new_reply vid cid a reply =
     (if list_ex (\<lambda>c. comment_id c = reply_id reply) (comments a) then a
      else append_reply vid cid a reply)"

text \<open>
  Lines 217--244, the loop over the pages of the reply listing. The result says whether an
  \<^verbatim>\<open>HttpError\<close> ended the loop, with the variables and effects as they stood then.
\<close>

fun fetch_replies ::
  "string \<Rightarrow> string \<Rightarrow> reply_resource pages \<Rightarrow> collected \<times> world \<Rightarrow> string option \<times> collected \<times> world" where
  "fetch_replies vid cid (Fails e) (a, w) = (Some e, a, execute (CommentsList cid) w)"
| "fetch_replies vid cid (Last items) (a, w) =
     (None, foldl (append_new_reply vid cid) a items, execute (CommentsList cid) w)"
| "fetch_replies vid cid (More items next) (a, w) =
     fetch_replies vid cid next
       (foldl (append_new_reply vid cid) a items, execute (CommentsList cid) w)"

definition inline_replies :: "thread_resource \<Rightarrow> reply_resource list" where
  "inline_replies item = (case replies item of None \<Rightarrow> [] | Some rs \<Rightarrow> rs)"

definition needs_supplemental :: "thread_resource \<Rightarrow> bool" where
  "needs_supplemental item = (or_zero (totalReplyCount item) > int (length (inline_replies item)))"

text \<open>Lines 168--247, the body of the loop over the items of one thread page.\<close>

definition process_item ::
  "youtube \<Rightarrow> string \<Rightarrow> collected \<times> world \<Rightarrow> thread_resource \<Rightarrow> collected \<times> world" where
  "process_item yt vid s item =
     (case s of (a, w) \<Rightarrow>
        (let cid = thread_id item;
             a1 = a\<lparr>comments := comments a @ [comment_data vid item],
                    comment_count := comment_count a + 1\<rparr>;
             a2 = (case replies item of None \<Rightarrow> a1 | Some rs \<Rightarrow> foldl (append_reply vid cid) a1 rs)
         in if needs_supplemental item then
              (case fetch_replies vid cid (comments_list yt cid) (a2, w) of
                 (None, a3, w3) \<Rightarrow> (a3, w3)
               | (Some e, a3, w3) \<Rightarrow> (a3, print (ReplyFetchError cid e) w3))
            else (a2, w)))"

text \<open>Lines 165--254, the loop over the pages of the thread listing.\<close>

fun fetch_threads ::
  "youtube \<Rightarrow> string \<Rightarrow> thread_resource pages \<Rightarrow> collected \<times> world \<Rightarrow> string option \<times> collected \<times> world" where
  "fetch_threads yt vid (Fails e) (a, w) = (Some e, a, execute (CommentThreadsList vid) w)"
| "fetch_threads yt vid (Last items) (a, w) =
     (case foldl (process_item yt vid) (a, execute (CommentThreadsList vid) w) items of
        (a', w') \<Rightarrow> (None, a', w'))"
| "fetch_threads yt vid (More items next) (a, w) =
     fetch_threads yt vid next
       (foldl (process_item yt vid) (a, execute (CommentThreadsList vid) w) items)"

definition get_video_comments :: "youtube \<Rightarrow> string \<Rightarrow> world \<Rightarrow> comment list \<times> world" where
  "get_video_comments yt vid w =
     (case fetch_threads yt vid (commentThreads_list yt vid)
             (\<lparr>comments = [], comment_count = 0, reply_count = 0\<rparr>, w) of
        (None, a, w') \<Rightarrow> (comments a, print (CollectedCounts (comment_count a) (reply_count a)) w')
      | (Some e, a, w') \<Rightarrow>
          ([], print (if contains ''commentsDisabled'' e then CommentsDisabled vid
                      else VideoHttpError vid e) w'))"

section \<open>\<^verbatim>\<open>scrape_comments\<close> (lines 319--419)\<close>

text \<open>Lines 369--378: the video's columns, with the defaults of \<^verbatim>\<open>video.get\<close>.\<close>

definition decorate :: "video \<Rightarrow> comment \<Rightarrow> row" where
  "decorate v c =
     \<lparr>video_id = video_id c, comment_id = comment_id c, parent_id = parent_id c,
      is_reply = is_reply c, author = author c, comment_text = comment_text c,
      comment_like_count = comment_like_count c, comment_published_at = comment_published_at c,
      relevance_rank = v_relevance_rank v,
      video_title = v_title v,
      video_channel = v_channel v,
      video_published_at = v_video_published_at v,
      video_view_count = (case v_details v of None \<Rightarrow> 0 | Some d \<Rightarrow> d_view_count d),
      video_like_count = (case v_details v of None \<Rightarrow> 0 | Some d \<Rightarrow> d_like_count d),
      video_comment_count = (case v_details v of None \<Rightarrow> 0 | Some d \<Rightarrow> d_comment_count d),
      video_duration = (case v_details v of None \<Rightarrow> 0 | Some d \<Rightarrow> d_duration d),
      video_description = (case v_details v of None \<Rightarrow> [] | Some d \<Rightarrow> d_description d)\<rparr>"

record totals =
  all_comments :: "row list"
  total_top_comments :: nat
  total_replies :: nat

text \<open>Lines 356--385, the body of the loop over the videos; \<open>n\<close> is \<^verbatim>\<open>len(videos)\<close>.\<close>

definition process_video :: "youtube \<Rightarrow> nat \<Rightarrow> totals \<times> world \<Rightarrow> nat \<times> video \<Rightarrow> totals \<times> world" where
  "process_video yt n s p =
     (case s of (t, w) \<Rightarrow> case p of (i, v) \<Rightarrow>
        (case get_video_comments yt (v_video_id v) (print (Processing i n (v_title v)) w) of
           (cs, w') \<Rightarrow>
             (let top_comments = length (filter (\<lambda>c. \<not> is_reply c) cs);
                  n_replies = length (filter is_reply cs)
              in (\<lparr>all_comments = all_comments t @ map (decorate v) cs,
                   total_top_comments = total_top_comments t + top_comments,
                   total_replies = total_replies t + n_replies\<rparr>,
                  print (CollectedItems (length cs) top_comments n_replies) w'))))"


section \<open>Auxiliary notions for the properties\<close>


text \<open>
  A listing read off as a whole: the items of the pages that arrive (those before a
  failure), the error that ends it, if any, and the number of requests executed on it.
\<close>

fun page_items :: "'a pages \<Rightarrow> 'a list" where
  "page_items (Fails e) = []"
| "page_items (Last items) = items"
| "page_items (More items next) = items @ page_items next"

fun page_error :: "'a pages \<Rightarrow> string option" where
  "page_error (Fails e) = Some e"
| "page_error (Last items) = None"
| "page_error (More items next) = page_error next"

fun page_count :: "'a pages \<Rightarrow> nat" where
  "page_count (Fails e) = 1"
| "page_count (Last items) = 1"
| "page_count (More items next) = Suc (page_count next)"

text \<open>The two halves of \<open>process_item\<close>: what it does to the variables, and its effects.\<close>

definition item_collected :: "youtube \<Rightarrow> string \<Rightarrow> collected \<Rightarrow> thread_resource \<Rightarrow> collected" where
  "item_collected yt vid a item =
     (let a2 = foldl (append_reply vid (thread_id item))
                 (a\<lparr>comments := comments a @ [comment_data vid item],
                    comment_count := comment_count a + 1\<rparr>)
                 (inline_replies item)
      in if needs_supplemental item
         then foldl (append_new_reply vid (thread_id item)) a2
                (page_items (comments_list yt (thread_id item)))
         else a2)"

definition reply_requests :: "youtube \<Rightarrow> thread_resource \<Rightarrow> request list" where
  "reply_requests yt item =
     (if needs_supplemental item
      then replicate (page_count (comments_list yt (thread_id item))) (CommentsList (thread_id item))
      else [])"

definition reply_messages :: "youtube \<Rightarrow> thread_resource \<Rightarrow> message list" where
  "reply_messages yt item =
     (if needs_supplemental item
      then (case page_error (comments_list yt (thread_id item)) of
              None \<Rightarrow> [] | Some e \<Rightarrow> [ReplyFetchError (thread_id item) e])
      else [])"

definition effects :: "request list \<Rightarrow> message list \<Rightarrow> world \<Rightarrow> world" where
  "effects rs ms w = w\<lparr>requests := requests w @ rs, stdout := stdout w @ ms\<rparr>"

fun thread_requests :: "youtube \<Rightarrow> string \<Rightarrow> thread_resource pages \<Rightarrow> request list" where
  "thread_requests yt vid (Fails e) = [CommentThreadsList vid]"
| "thread_requests yt vid (Last items) =
     CommentThreadsList vid # concat (map (reply_requests yt) items)"
| "thread_requests yt vid (More items next) =
     CommentThreadsList vid # concat (map (reply_requests yt) items) @ thread_requests yt vid next"

text \<open>The comment list alone: one reply of the reply listing, one thread item, one video.\<close>

definition add_new :: "string \<Rightarrow> string \<Rightarrow> comment list \<Rightarrow> reply_resource \<Rightarrow> comment list" where
  "add_new vid cid cs reply =
     (if reply_id reply \<in> set (map comment_id cs) then cs else cs @ [reply_data vid cid reply])"

definition item_comments ::
  "youtube \<Rightarrow> string \<Rightarrow> comment list \<Rightarrow> thread_resource \<Rightarrow> comment list" where
  "item_comments yt vid cs item =
     (let cs2 = cs @ comment_data vid item # map (reply_data vid (thread_id item)) (inline_replies item)
      in if needs_supplemental item
         then foldl (add_new vid (thread_id item)) cs2 (page_items (comments_list yt (thread_id item)))
         else cs2)"

definition retrieved :: "youtube \<Rightarrow> string \<Rightarrow> comment list" where
  "retrieved yt vid =
     (case page_error (commentThreads_list yt vid) of
        Some e \<Rightarrow> []
      | None \<Rightarrow> comments (foldl (item_collected yt vid)
                  \<lparr>comments = [], comment_count = 0, reply_count = 0\<rparr>
                  (page_items (commentThreads_list yt vid))))"

text \<open>Parent links inside one comment list.\<close>

definition has_top :: "string \<Rightarrow> string \<Rightarrow> comment list \<Rightarrow> bool" where
  "has_top vid cid cs = (\<exists>t\<in>set cs. comment_id t = cid \<and> \<not> is_reply t \<and> video_id t = vid)"

definition parent_consistent :: "string \<Rightarrow> comment list \<Rightarrow> bool" where
  "parent_consistent vid cs =
     (\<forall>c\<in>set cs. video_id c = vid \<and> (is_reply c \<longleftrightarrow> parent_id c \<noteq> None) \<and>
        (\<forall>p. parent_id c = Some p \<longrightarrow> has_top vid p cs))"





definition video_rows :: "youtube \<Rightarrow> video \<Rightarrow> row list" where
  "video_rows yt v = map (decorate v) (retrieved yt (v_video_id v))"

definition run_rows :: "youtube \<Rightarrow> video list \<Rightarrow> row list" where
  "run_rows yt vs = concat (map (video_rows yt) vs)"



text \<open>
  The identifiers the service attaches to a thread: its own, those of its inline replies,
  and those of the reply listing when the retriever asks for it.
\<close>

definition item_ids :: "thread_resource \<Rightarrow> string list" where
  "item_ids item = thread_id item # map reply_id (inline_replies item)"




text \<open>The replies of a reply listing that are new with respect to the ids seen so far.\<close>

fun new_replies :: "string list \<Rightarrow> reply_resource list \<Rightarrow> reply_resource list" where
  "new_replies seen [] = []"
| "new_replies seen (r # rs) =
     (if reply_id r \<in> set seen then new_replies seen rs
      else r # new_replies (seen @ [reply_id r]) rs)"





section \<open>A small service for concrete runs\<close>

definition snip :: "string \<Rightarrow> comment_snippet" where
  "snip who = \<lparr>authorDisplayName = who, textDisplay = ''hello'', likeCount = 0,
               publishedAt = ''2025-01-05T00:00:00Z''\<rparr>"

definition reply :: "string \<Rightarrow> reply_resource" where
  "reply i = \<lparr>reply_id = i, reply_snippet = snip ''bob''\<rparr>"

definition thread :: "string \<Rightarrow> int option \<Rightarrow> reply_resource list option \<Rightarrow> thread_resource" where
  "thread i n inline =
     \<lparr>thread_id = i, topLevelComment = snip ''ann'', totalReplyCount = n, replies = inline\<rparr>"

definition hit :: "string \<Rightarrow> search_resource" where
  "hit i = \<lparr>videoId = i, snippet_title = ''title of '' @ i, snippet_channelTitle = ''channel'',
            snippet_publishedAt = ''2025-01-01T00:00:00Z''\<rparr>"

definition detail :: "string \<Rightarrow> video_resource" where
  "detail i = \<lparr>resource_id = i, statistics_viewCount = Some 10, statistics_likeCount = Some 2,
               statistics_commentCount = None, contentDetails_duration = Some ''PT5M'',
               snippet_description = None\<rparr>"

text \<open>
  Searching \<^verbatim>\<open>down\<close> fails, \<^verbatim>\<open>none\<close> finds nothing, \<^verbatim>\<open>quiet\<close> finds one video without
  comments, any other query finds the video of that name and then the video \<^verbatim>\<open>order\<close>.
  Details exist for the video \<^verbatim>\<open>five\<close> only. The video \<^verbatim>\<open>twice\<close> lists one thread on
  two pages, \<^verbatim>\<open>broken\<close> fails on its second page, \<^verbatim>\<open>five\<close> has one thread with three of
  five replies inline, \<^verbatim>\<open>order\<close> has the threads \<^verbatim>\<open>A\<close> and \<^verbatim>\<open>B\<close>.
\<close>

definition example_service :: youtube where
  "example_service =
     \<lparr>search_list = (\<lambda>q n.
        if q = ''down'' then Inl ''quotaExceeded''
        else if q = ''none'' then Inr []
        else if q = ''quiet'' then Inr [hit ''quiet'']
        else Inr [hit q, hit ''order'']),
      videos_list = (\<lambda>ids. Inr (map detail (filter (\<lambda>i. i = ''five'') ids))),
      commentThreads_list = (\<lambda>vid.
        if vid = ''twice'' then More [thread ''t1'' None None] (Last [thread ''t1'' None None])
        else if vid = ''broken'' then More [thread ''t1'' None None] (Fails ''quotaExceeded'')
        else if vid = ''five'' then
          Last [thread ''t'' (Some 5) (Some [reply ''r1'', reply ''r2'', reply ''r3''])]
        else if vid = ''order'' then
          Last [thread ''A'' (Some 2) (Some [reply ''rA1'']),
                thread ''B'' (Some 1) (Some [reply ''rB1''])]
        else Last []),
      comments_list = (\<lambda>p.
        if p = ''t'' then More [reply ''r4'', reply ''r1'', reply ''r2''] (Last [reply ''r3'', reply ''r5''])
        else if p = ''A'' then Last [reply ''rA1'', reply ''rA2'']
        else Last [])\<rparr>"

definition empty_world :: world where
  "empty_world = \<lparr>requests = [], stdout = [], files = Map.empty\<rparr>"

definition empty_collected :: collected where
  "empty_collected = \<lparr>comments = [], comment_count = 0, reply_count = 0\<rparr>"

section \<open>Properties of the duration parser\<close>

lemma is_digit_units [simp]:
  "\<not> is_digit CHR ''H''" "\<not> is_digit CHR ''M''" "\<not> is_digit CHR ''S''"
  by (simp_all add: is_digit_def)



lemma component_nil [simp]: "optional_component u [] = (None, [])"
  by (simp add: optional_component_def)























section \<open>Properties of the retriever\<close>

lemma effects_nil [simp]: "effects [] [] w = w"
  by (simp add: effects_def)

lemma effects_effects [simp]: "effects rs ms (effects rs' ms' w) = effects (rs' @ rs) (ms' @ ms) w"
  by (simp add: effects_def)

lemma execute_effects: "execute r w = effects [r] [] w"
  by (simp add: execute_def effects_def)

lemma print_effects: "print m w = effects [] [m] w"
  by (simp add: print_def effects_def)

lemma fetch_replies_eq:
  "fetch_replies vid cid ps (a, w) =
     (page_error ps, foldl (append_new_reply vid cid) a (page_items ps),
      effects (replicate (page_count ps) (CommentsList cid)) [] w)"
proof (induction ps arbitrary: a w)
  case (More items rest)
  show ?case by (simp add: More.IH execute_effects replicate_append_same)
qed (simp_all add: execute_effects)

lemma process_item_eq:
  "process_item yt vid (a, w) item =
     (item_collected yt vid a item, effects (reply_requests yt item) (reply_messages yt item) w)"
  by (cases "page_error (comments_list yt (thread_id item))")
     (simp_all add: process_item_def item_collected_def reply_requests_def reply_messages_def
        fetch_replies_eq inline_replies_def print_effects Let_def split: option.splits)

lemma foldl_process_item:
  "foldl (process_item yt vid) (a, w) items =
     (foldl (item_collected yt vid) a items,
      effects (concat (map (reply_requests yt) items)) (concat (map (reply_messages yt) items)) w)"
  by (induction items arbitrary: a w) (simp_all add: process_item_eq)

lemma fetch_threads_eq:
  "fetch_threads yt vid ps (a, w) =
     (page_error ps, foldl (item_collected yt vid) a (page_items ps),
      effects (thread_requests yt vid ps) (concat (map (reply_messages yt) (page_items ps))) w)"
proof (induction ps arbitrary: a w)
  case (More items rest)
  show ?case by (simp add: More.IH execute_effects foldl_process_item)
qed (simp_all add: execute_effects foldl_process_item)

lemma get_video_comments_fst: "fst (get_video_comments yt vid w) = retrieved yt vid"
  by (simp add: get_video_comments_def retrieved_def fetch_threads_eq split: option.splits)

lemma get_video_comments_requests:
  "requests (snd (get_video_comments yt vid w)) = requests w @ thread_requests yt vid (commentThreads_list yt vid)"
  by (simp add: get_video_comments_def fetch_threads_eq effects_def print_def split: option.splits)

lemma get_video_comments_files:
  "files (snd (get_video_comments yt vid w)) = files w"
  by (simp add: get_video_comments_def fetch_threads_eq effects_def print_def split: option.splits)

lemma comments_foldl_append_reply:
  "comments (foldl (append_reply vid cid) a rs) = comments a @ map (reply_data vid cid) rs"
  by (induction rs arbitrary: a) (simp_all add: append_reply_def)

lemma list_ex_comment_id: "list_ex (\<lambda>c. comment_id c = x) cs \<longleftrightarrow> x \<in> set (map comment_id cs)"
  by (induction cs) auto

lemma comments_append_new_reply:
  "comments (append_new_reply vid cid a r) = add_new vid cid (comments a) r"
  by (simp add: append_new_reply_def add_new_def append_reply_def list_ex_comment_id)

lemma comments_foldl_append_new_reply:
  "comments (foldl (append_new_reply vid cid) a rs) = foldl (add_new vid cid) (comments a) rs"
  by (induction rs arbitrary: a) (simp_all add: comments_append_new_reply)

lemma comments_item_collected:
  "comments (item_collected yt vid a item) = item_comments yt vid (comments a) item"
  by (simp add: item_collected_def item_comments_def Let_def comments_foldl_append_reply
        comments_foldl_append_new_reply)

lemma comments_foldl_item_collected:
  "comments (foldl (item_collected yt vid) a items) = foldl (item_comments yt vid) (comments a) items"
  by (induction items arbitrary: a) (simp_all add: comments_item_collected)

lemma retrieved_eq:
  "retrieved yt vid =
     (if page_error (commentThreads_list yt vid) = None
      then foldl (item_comments yt vid) [] (page_items (commentThreads_list yt vid)) else [])"
  by (simp add: retrieved_def comments_foldl_item_collected split: option.splits)

lemma has_top_append: "has_top vid p cs \<Longrightarrow> has_top vid p (cs @ ds)"
  by (auto simp: has_top_def)

lemma parent_consistent_top:
  "parent_consistent vid cs \<Longrightarrow> parent_consistent vid (cs @ [comment_data vid item])"
  by (auto simp: parent_consistent_def comment_data_def intro: has_top_append)

lemma has_top_top: "has_top vid (thread_id item) (cs @ [comment_data vid item])"
  by (simp add: has_top_def comment_data_def)

lemma parent_consistent_reply:
  "parent_consistent vid cs \<Longrightarrow> has_top vid cid cs \<Longrightarrow> parent_consistent vid (cs @ [reply_data vid cid r])"
  by (auto simp: parent_consistent_def reply_data_def intro: has_top_append)

lemma parent_consistent_replies:
  "parent_consistent vid cs \<Longrightarrow> has_top vid cid cs \<Longrightarrow>
   parent_consistent vid (cs @ map (reply_data vid cid) rs) \<and> has_top vid cid (cs @ map (reply_data vid cid) rs)"
proof (induction rs rule: rev_induct)
  case Nil then show ?case by simp
next
  case (snoc r rs)
  then have "parent_consistent vid ((cs @ map (reply_data vid cid) rs) @ [reply_data vid cid r])"
    by (intro parent_consistent_reply) auto
  moreover have "has_top vid cid ((cs @ map (reply_data vid cid) rs) @ [reply_data vid cid r])"
    using snoc by (intro has_top_append) auto
  ultimately show ?case by simp
qed

lemma add_new_old: "reply_id r \<in> set (map comment_id cs) \<Longrightarrow> add_new vid cid cs r = cs"
  by (simp add: add_new_def)

lemma add_new_fresh:
  "reply_id r \<notin> set (map comment_id cs) \<Longrightarrow> add_new vid cid cs r = cs @ [reply_data vid cid r]"
  by (simp add: add_new_def)

lemma parent_consistent_add_new:
  "parent_consistent vid cs \<Longrightarrow> has_top vid cid cs \<Longrightarrow>
   parent_consistent vid (foldl (add_new vid cid) cs rs)"
proof (induction rs arbitrary: cs)
  case Nil then show ?case by simp
next
  case (Cons r rs)
  show ?case
  proof (cases "reply_id r \<in> set (map comment_id cs)")
    case True
    then show ?thesis using Cons by (simp add: add_new_old)
  next
    case False
    have "parent_consistent vid (foldl (add_new vid cid) (cs @ [reply_data vid cid r]) rs)"
      using Cons.prems by (intro Cons.IH parent_consistent_reply has_top_append)
    then show ?thesis using False by (simp add: add_new_fresh)
  qed
qed

lemma parent_consistent_item:
  assumes "parent_consistent vid cs"
  shows "parent_consistent vid (item_comments yt vid cs item)"
proof -
  let ?cs1 = "cs @ [comment_data vid item]"
  let ?cs2 = "?cs1 @ map (reply_data vid (thread_id item)) (inline_replies item)"
  have 1: "parent_consistent vid ?cs1" using assms by (rule parent_consistent_top)
  have 2: "parent_consistent vid ?cs2 \<and> has_top vid (thread_id item) ?cs2"
    using 1 has_top_top by (rule parent_consistent_replies)
  then have "parent_consistent vid (foldl (add_new vid (thread_id item)) ?cs2 rs)" for rs
    by (intro parent_consistent_add_new) auto
  with 2 show ?thesis by (simp add: item_comments_def Let_def)
qed

lemma parent_consistent_items:
  "parent_consistent vid cs \<Longrightarrow> parent_consistent vid (foldl (item_comments yt vid) cs items)"
  by (induction items arbitrary: cs) (simp_all add: parent_consistent_item)

lemma parent_consistent_retrieved: "parent_consistent vid (retrieved yt vid)"
proof -
  have "parent_consistent vid []" by (simp add: parent_consistent_def)
  then show ?thesis by (simp add: retrieved_eq parent_consistent_items)
qed

text \<open>
  Claim C4. In every comment record that \<^verbatim>\<open>get_video_comments\<close> returns, \<open>is_reply\<close> holds
  exactly when \<open>parent_id\<close> is not \<open>None\<close>, and a parent id that is present is the
  \<open>comment_id\<close> of a top-level record (\<open>is_reply\<close> false) returned for the same video.
\<close>

theorem parent_consistency:
  "\<forall>c\<in>set (fst (get_video_comments yt vid w)).
     video_id c = vid \<and> (is_reply c \<longleftrightarrow> parent_id c \<noteq> None) \<and>
     (\<forall>p. parent_id c = Some p \<longrightarrow>
        (\<exists>t\<in>set (fst (get_video_comments yt vid w)).
           comment_id t = p \<and> \<not> is_reply t \<and> video_id t = video_id c))"
proof
  fix c assume c: "c \<in> set (fst (get_video_comments yt vid w))"
  have pc: "parent_consistent vid (retrieved yt vid)" by (rule parent_consistent_retrieved)
  from c have c': "c \<in> set (retrieved yt vid)" by (simp add: get_video_comments_fst)
  with pc have 1: "video_id c = vid" and 2: "is_reply c \<longleftrightarrow> parent_id c \<noteq> None"
    and 3: "\<And>p. parent_id c = Some p \<Longrightarrow> has_top vid p (retrieved yt vid)"
    unfolding parent_consistent_def by blast+
  show "video_id c = vid \<and> (is_reply c \<longleftrightarrow> parent_id c \<noteq> None) \<and>
     (\<forall>p. parent_id c = Some p \<longrightarrow>
        (\<exists>t\<in>set (fst (get_video_comments yt vid w)).
           comment_id t = p \<and> \<not> is_reply t \<and> video_id t = video_id c))"
    using 1 2 3 unfolding has_top_def get_video_comments_fst by blast
qed

lemma page_count_pos: "0 < page_count ps"
  by (induction ps) simp_all

lemma set_reply_requests:
  "set (reply_requests yt item) = (if needs_supplemental item then {CommentsList (thread_id item)} else {})"
  using page_count_pos[of "comments_list yt (thread_id item)"] by (auto simp: reply_requests_def)

lemma set_thread_requests:
  "set (thread_requests yt vid ps) =
     insert (CommentThreadsList vid) (\<Union>item\<in>set (page_items ps). set (reply_requests yt item))"
  by (induction ps) auto

text \<open>
  Claim C7. Among the requests that one call of \<^verbatim>\<open>get_video_comments\<close> issues, a reply
  listing for parent \<open>p\<close> occurs exactly when a thread item with id \<open>p\<close> was received whose
  \<^verbatim>\<open>totalReplyCount\<close> is greater than the number of its inline replies. So no reply listing
  is requested for a thread whose inline replies cover its count.
\<close>

theorem supplemental_fetch_policy:
  "CommentsList p \<in> set (drop (length (requests w)) (requests (snd (get_video_comments yt vid w))))
   \<longleftrightarrow> (\<exists>item\<in>set (page_items (commentThreads_list yt vid)).
          thread_id item = p \<and> or_zero (totalReplyCount item) > int (length (inline_replies item)))"
proof -
  have "drop (length (requests w)) (requests (snd (get_video_comments yt vid w)))
          = thread_requests yt vid (commentThreads_list yt vid)"
    by (simp add: get_video_comments_requests)
  moreover have "CommentsList p \<in> set (reply_requests yt item)
       \<longleftrightarrow> thread_id item = p \<and> or_zero (totalReplyCount item) > int (length (inline_replies item))" for item
    by (auto simp: set_reply_requests needs_supplemental_def)
  ultimately show ?thesis
    by (simp add: set_thread_requests)
qed

lemma comment_id_data [simp]:
  "comment_id (comment_data vid item) = thread_id item"
  "comment_id (reply_data vid cid r) = reply_id r"
  by (simp_all add: comment_data_def reply_data_def)















lemma add_new_new_replies:
  "foldl (add_new vid cid) cs rs = cs @ map (reply_data vid cid) (new_replies (map comment_id cs) rs)"
proof (induction rs arbitrary: cs)
  case Nil
  show ?case by simp
next
  case (Cons r rs)
  show ?case
  proof (cases "reply_id r \<in> set (map comment_id cs)")
    case True
    then show ?thesis using Cons.IH[of cs] by (simp add: add_new_old)
  next
    case False
    then show ?thesis using Cons.IH[of "cs @ [reply_data vid cid r]"] by (simp add: add_new_fresh)
  qed
qed

lemma new_replies_seen: "\<forall>r\<in>set rs. reply_id r \<in> set seen \<Longrightarrow> new_replies seen rs = []"
  by (induction rs) simp_all


lemma new_replies_one:
  assumes "set rs \<subseteq> {r1, r2}" "r2 \<in> set rs" "reply_id r1 \<in> set seen" "reply_id r2 \<notin> set seen"
  shows "new_replies seen rs = [r2]"
  using assms
proof (induction rs)
  case Nil
  then show ?case by simp
next
  case (Cons r rs)
  show ?case
  proof (cases "reply_id r \<in> set seen")
    case True
    then have "r \<noteq> r2" using Cons.prems(4) by auto
    then have "r2 \<in> set rs" using Cons.prems(2) by auto
    then show ?thesis using Cons True by simp
  next
    case False
    then have r: "r = r2" using Cons.prems(1,3) by auto
    have "\<forall>r'\<in>set rs. reply_id r' \<in> set (seen @ [reply_id r2])"
      using Cons.prems(1,3) by auto
    then have "new_replies (seen @ [reply_id r2]) rs = []" by (rule new_replies_seen)
    then show ?thesis using False r by simp
  qed
qed

lemma retrieved_items:
  "page_error (commentThreads_list yt vid) = None \<Longrightarrow> page_items (commentThreads_list yt vid) = items \<Longrightarrow>
   retrieved yt vid = foldl (item_comments yt vid) [] items"
  by (simp add: retrieved_eq)

lemma item_comments_eq:
  "item_comments yt vid cs item =
     cs @ comment_data vid item # map (reply_data vid (thread_id item)) (inline_replies item) @
     (if needs_supplemental item
      then map (reply_data vid (thread_id item))
             (new_replies (map comment_id cs @ item_ids item) (page_items (comments_list yt (thread_id item))))
      else [])"
  by (simp add: item_comments_def Let_def add_new_new_replies item_ids_def comp_def)

text \<open>
  Claim C6. A video lists two threads, \<open>A\<close> before \<open>B\<close>. \<open>A\<close> carries the inline reply
  \<open>rA1\<close> and announces more replies than that; its reply listing delivers \<open>rA2\<close>, a reply
  with an id of its own, and beyond it at most \<open>rA1\<close> again. \<open>B\<close> carries the inline reply
  \<open>rB1\<close> and announces no more. Then the retriever returns, in this order, \<open>A\<close>, \<open>rA1\<close>,
  \<open>rA2\<close>, \<open>B\<close>, \<open>rB1\<close>: each top-level comment is followed at once by its replies, the
  inline ones before the supplemental ones.
\<close>

theorem output_order:
  assumes "page_error (commentThreads_list yt vid) = None"
    and "page_items (commentThreads_list yt vid) = [A, B]"
    and "replies A = Some [rA1]" and "or_zero (totalReplyCount A) > 1"
    and "rA2 \<in> set (page_items (comments_list yt (thread_id A)))"
    and "set (page_items (comments_list yt (thread_id A))) \<subseteq> {rA1, rA2}"
    and "reply_id rA2 \<noteq> thread_id A" and "reply_id rA2 \<noteq> reply_id rA1"
    and "replies B = Some [rB1]" and "or_zero (totalReplyCount B) \<le> 1"
  shows "fst (get_video_comments yt vid w) =
           [comment_data vid A, reply_data vid (thread_id A) rA1, reply_data vid (thread_id A) rA2,
            comment_data vid B, reply_data vid (thread_id B) rB1]"
proof -
  have iA: "inline_replies A = [rA1]" and iB: "inline_replies B = [rB1]"
    using assms(3,9) by (simp_all add: inline_replies_def)
  have nA: "needs_supplemental A" and nB: "\<not> needs_supplemental B"
    using assms(4,10) by (simp_all add: needs_supplemental_def iA iB)
  have new: "new_replies [thread_id A, reply_id rA1] (page_items (comments_list yt (thread_id A))) = [rA2]"
    using assms(6,5) by (rule new_replies_one) (use assms(7,8) in auto)
  have "retrieved yt vid = foldl (item_comments yt vid) [] [A, B]"
    using assms(1,2) by (rule retrieved_items)
  then show ?thesis
    by (simp add: get_video_comments_fst item_comments_eq iA iB nA nB item_ids_def new)
qed


section \<open>Properties of discovery and of the whole run\<close>






lemma process_video_rows:
  "all_comments (fst (process_video yt n (t, w) (i, v))) = all_comments t @ video_rows yt v"
proof -
  let ?w = "print (Processing i n (v_title v)) w"
  obtain cs w' where g: "get_video_comments yt (v_video_id v) ?w = (cs, w')"
    by (cases "get_video_comments yt (v_video_id v) ?w")
  then have "cs = retrieved yt (v_video_id v)"
    using get_video_comments_fst[of yt "v_video_id v" ?w] by simp
  then show ?thesis using g by (simp add: process_video_def video_rows_def Let_def)
qed

lemma process_video_files: "files (snd (process_video yt n (t, w) (i, v))) = files w"
proof -
  let ?w = "print (Processing i n (v_title v)) w"
  obtain cs w' where g: "get_video_comments yt (v_video_id v) ?w = (cs, w')"
    by (cases "get_video_comments yt (v_video_id v) ?w")
  then have "files w' = files w"
    using get_video_comments_files[of yt "v_video_id v" ?w] by (simp add: print_def)
  then show ?thesis using g by (simp add: process_video_def Let_def print_def)
qed

lemma foldl_process_video:
  "all_comments (fst (foldl (process_video yt n) (t, w) ivs)) = all_comments t @ run_rows yt (map snd ivs)
   \<and> files (snd (foldl (process_video yt n) (t, w) ivs)) = files w"
proof (induction ivs arbitrary: t w)
  case Nil
  show ?case by (simp add: run_rows_def)
next
  case (Cons iv ivs)
  obtain i v where iv: "iv = (i, v)" by (cases iv)
  obtain t' w' where s: "process_video yt n (t, w) (i, v) = (t', w')"
    by (cases "process_video yt n (t, w) (i, v)")
  have "all_comments t' = all_comments t @ video_rows yt v" "files w' = files w"
    using process_video_rows[of yt n t w i v] process_video_files[of yt n t w i v] s by simp_all
  then show ?case using Cons.IH[of t' w'] by (simp add: iv s run_rows_def)
qed






lemma decorate_comment_fields [simp]:
  "comment_id (decorate v c) = comment_id c" "video_id (decorate v c) = video_id c"
  "parent_id (decorate v c) = parent_id c" "is_reply (decorate v c) = is_reply c"
  by (simp_all add: decorate_def)







lemma get_video_comments_failure:
  assumes "page_error (commentThreads_list yt vid) = Some e"
  shows "fst (get_video_comments yt vid w) = []"
    and "last (stdout (snd (get_video_comments yt vid w)))
           = (if contains ''commentsDisabled'' e then CommentsDisabled vid else VideoHttpError vid e)"
  using assms by (simp_all add: get_video_comments_def fetch_threads_eq print_def)

lemma foldl_process_video_rows:
  "all_comments (fst (foldl (process_video yt n) (t, w) ivs)) = all_comments t @ run_rows yt (map snd ivs)"
  using foldl_process_video[of yt n t w ivs] by simp

text \<open>
  Claim C2, as the code has it. When the thread listing of a video ends in an
  \<^verbatim>\<open>HttpError\<close> (comments disabled or any other), \<^verbatim>\<open>get_video_comments\<close> returns the empty
  list, whatever it had collected, and its last printed line names the condition; in the
  orchestrator's loop the video adds no row and the other videos, before and after it,
  give the rows they give without it.
\<close>

theorem thread_listing_failure:
  assumes "page_error (commentThreads_list yt (v_video_id v)) = Some e"
  shows "fst (get_video_comments yt (v_video_id v) w) = [] \<and>
         last (stdout (snd (get_video_comments yt (v_video_id v) w)))
           = (if contains ''commentsDisabled'' e then CommentsDisabled (v_video_id v)
              else VideoHttpError (v_video_id v) e) \<and>
         all_comments (fst (foldl (process_video yt n) (t, w') (before @ (i, v) # after)))
           = all_comments (fst (foldl (process_video yt n) (t, w') (before @ after)))"
proof -
  have "retrieved yt (v_video_id v) = []"
    using get_video_comments_failure(1)[OF assms, of w] by (simp add: get_video_comments_fst)
  then have "run_rows yt (map snd (before @ (i, v) # after)) = run_rows yt (map snd (before @ after))"
    by (simp add: run_rows_def video_rows_def)
  then show ?thesis
    unfolding foldl_process_video_rows using get_video_comments_failure[OF assms] by simp
qed

text \<open>
  Claim C2 as stated fails: when the second page of the thread listing fails, the comment
  collected from the first page is not returned.
\<close>

theorem partial_results_dropped_counterexample:
  "fst (fetch_threads example_service ''broken'' (commentThreads_list example_service ''broken'')
          (empty_collected, empty_world)) = Some ''quotaExceeded'' \<and>
   comments (fst (snd (fetch_threads example_service ''broken''
          (commentThreads_list example_service ''broken'') (empty_collected, empty_world))))
     = [comment_data ''broken'' (thread ''t1'' None None)] \<and>
   fst (get_video_comments example_service ''broken'' empty_world) = [] \<and>
   fst (get_video_comments example_service ''broken'' empty_world)
     \<noteq> comments (fst (snd (fetch_threads example_service ''broken''
          (commentThreads_list example_service ''broken'') (empty_collected, empty_world))))"
  by code_simp

theorem thread_listing_failure_witness:
  "page_error (commentThreads_list example_service (v_video_id (video_stub (1, hit ''broken''))))
     = Some ''quotaExceeded'' \<and>
   fst (get_video_comments example_service (v_video_id (video_stub (1, hit ''broken''))) empty_world) = [] \<and>
   last (stdout (snd (get_video_comments example_service
          (v_video_id (video_stub (1, hit ''broken''))) empty_world)))
     = VideoHttpError ''broken'' ''quotaExceeded'' \<and>
   map comment_id (all_comments (fst (foldl (process_video example_service 2)
       (\<lparr>all_comments = [], total_top_comments = 0, total_replies = 0\<rparr>, empty_world)
       ([] @ (1, video_stub (1, hit ''broken'')) # [(2, video_stub (2, hit ''order''))]))))
     = [''A'', ''rA1'', ''rA2'', ''B'', ''rB1'']"
proof -
  let ?v = "video_stub (1, hit ''broken'')"
  let ?t = "\<lparr>all_comments = [], total_top_comments = 0, total_replies = 0\<rparr>"
  have e: "page_error (commentThreads_list example_service (v_video_id ?v)) = Some ''quotaExceeded''"
    by code_simp
  have c: "\<not> contains ''commentsDisabled'' ''quotaExceeded''"
    by code_simp
  have r: "map comment_id (all_comments (fst (foldl (process_video example_service 2) (?t, empty_world)
             ([] @ [(2, video_stub (2, hit ''order''))])))) = [''A'', ''rA1'', ''rA2'', ''B'', ''rB1'']"
    by code_simp
  have v: "v_video_id ?v = ''broken''"
    by (simp add: video_stub_def hit_def)
  note T = thread_listing_failure[OF e, of empty_world 2 ?t empty_world "[]" 1
             "[(2, video_stub (2, hit ''order''))]"]
  have T1: "fst (get_video_comments example_service (v_video_id ?v) empty_world) = []"
    using T by (elim conjE)
  have "last (stdout (snd (get_video_comments example_service (v_video_id ?v) empty_world)))
          = (if contains ''commentsDisabled'' ''quotaExceeded'' then CommentsDisabled (v_video_id ?v)
             else VideoHttpError (v_video_id ?v) ''quotaExceeded'')"
    using T by (elim conjE)
  then have T2: "last (stdout (snd (get_video_comments example_service (v_video_id ?v) empty_world)))
          = VideoHttpError ''broken'' ''quotaExceeded''"
    by (simp only: c if_False v)
  have "all_comments (fst (foldl (process_video example_service 2) (?t, empty_world)
             ([] @ (1, ?v) # [(2, video_stub (2, hit ''order''))])))
        = all_comments (fst (foldl (process_video example_service 2) (?t, empty_world)
             ([] @ [(2, video_stub (2, hit ''order''))])))"
    using T by (elim conjE)
  then have T3: "map comment_id (all_comments (fst (foldl (process_video example_service 2)
       (?t, empty_world) ([] @ (1, ?v) # [(2, video_stub (2, hit ''order''))]))))
     = [''A'', ''rA1'', ''rA2'', ''B'', ''rB1'']"
    by (simp only: r)
  show ?thesis
    by (intro conjI) (rule e T1 T2 T3)+
qed


lemma v_video_id_enrich [simp]: "v_video_id (enrich d v) = v_video_id v"
  by (simp add: enrich_def split: option.splits)










section \<open>Concrete runs\<close>

theorem parent_consistency_witness:
  "reply_data ''order'' ''A'' (reply ''rA2'')
     \<in> set (fst (get_video_comments example_service ''order'' empty_world)) \<and>
   parent_id (reply_data ''order'' ''A'' (reply ''rA2'')) = Some ''A'' \<and>
   is_reply (reply_data ''order'' ''A'' (reply ''rA2'')) \<and>
   video_id (reply_data ''order'' ''A'' (reply ''rA2'')) = ''order'' \<and>
   (\<exists>t. t \<in> set (fst (get_video_comments example_service ''order'' empty_world)) \<and>
        comment_id t = ''A'' \<and> \<not> is_reply t \<and> video_id t = ''order'')"
proof -
  let ?out = "fst (get_video_comments example_service ''order'' empty_world)"
  let ?c = "reply_data ''order'' ''A'' (reply ''rA2'')"
  have m: "?c \<in> set ?out"
    by code_simp
  have p: "parent_id ?c = Some ''A''"
    by (simp add: reply_data_def)
  from parent_consistency[of example_service "''order''" empty_world] m
  have c: "video_id ?c = ''order'' \<and> (is_reply ?c \<longleftrightarrow> parent_id ?c \<noteq> None) \<and>
     (\<forall>p. parent_id ?c = Some p \<longrightarrow>
        (\<exists>t\<in>set ?out. comment_id t = p \<and> \<not> is_reply t \<and> video_id t = video_id ?c))"
    by (rule bspec)
  then have v: "video_id ?c = ''order''" and r: "is_reply ?c"
    using p by simp_all
  from c p have "\<exists>t\<in>set ?out. comment_id t = ''A'' \<and> \<not> is_reply t \<and> video_id t = video_id ?c"
    by blast
  then have e: "\<exists>t. t \<in> set ?out \<and> comment_id t = ''A'' \<and> \<not> is_reply t \<and> video_id t = ''order''"
    unfolding v by blast
  show ?thesis
    by (intro conjI) (rule m p r v e)+
qed

theorem supplemental_fetch_policy_witness:
  "CommentsList ''A'' \<in> set (drop (length (requests empty_world))
       (requests (snd (get_video_comments example_service ''order'' empty_world)))) \<and>
   CommentsList ''B'' \<notin> set (drop (length (requests empty_world))
       (requests (snd (get_video_comments example_service ''order'' empty_world))))"
proof -
  have a: "\<exists>item\<in>set (page_items (commentThreads_list example_service ''order'')).
          thread_id item = ''A'' \<and> or_zero (totalReplyCount item) > int (length (inline_replies item))"
    by code_simp
  have b: "\<not> (\<exists>item\<in>set (page_items (commentThreads_list example_service ''order'')).
          thread_id item = ''B'' \<and> or_zero (totalReplyCount item) > int (length (inline_replies item)))"
    by code_simp
  show ?thesis
    using a b supplemental_fetch_policy[of "''A''" empty_world example_service "''order''"]
      supplemental_fetch_policy[of "''B''" empty_world example_service "''order''"]
    by (simp only: simp_thms)
qed

theorem output_order_witness:
  "page_error (commentThreads_list example_service ''order'') = None \<and>
   page_items (commentThreads_list example_service ''order'')
     = [thread ''A'' (Some 2) (Some [reply ''rA1'']), thread ''B'' (Some 1) (Some [reply ''rB1''])] \<and>
   map comment_id (fst (get_video_comments example_service ''order'' empty_world))
     = [''A'', ''rA1'', ''rA2'', ''B'', ''rB1'']"
proof -
  let ?A = "thread ''A'' (Some 2) (Some [reply ''rA1''])"
  let ?B = "thread ''B'' (Some 1) (Some [reply ''rB1''])"
  have 1: "page_error (commentThreads_list example_service ''order'') = None"
    by code_simp
  have 2: "page_items (commentThreads_list example_service ''order'') = [?A, ?B]"
    by code_simp
  have A: "thread_id ?A = ''A''" and B: "thread_id ?B = ''B''"
    by (simp_all add: thread_def)
  have 3: "replies ?A = Some [reply ''rA1'']" and 4: "or_zero (totalReplyCount ?A) > 1"
    and 9: "replies ?B = Some [reply ''rB1'']" and 10: "or_zero (totalReplyCount ?B) \<le> 1"
    by (simp_all add: thread_def or_zero_def)
  have 5: "reply ''rA2'' \<in> set (page_items (comments_list example_service (thread_id ?A)))"
    and 6: "set (page_items (comments_list example_service (thread_id ?A))) \<subseteq> {reply ''rA1'', reply ''rA2''}"
    unfolding A by (simp_all add: example_service_def)
  have 7: "reply_id (reply ''rA2'') \<noteq> thread_id ?A" and 8: "reply_id (reply ''rA2'') \<noteq> reply_id (reply ''rA1'')"
    by (simp_all add: reply_def thread_def)
  have "map comment_id (fst (get_video_comments example_service ''order'' empty_world))
     = map comment_id [comment_data ''order'' ?A, reply_data ''order'' (thread_id ?A) (reply ''rA1''),
          reply_data ''order'' (thread_id ?A) (reply ''rA2''),
          comment_data ''order'' ?B, reply_data ''order'' (thread_id ?B) (reply ''rB1'')]"
    by (simp only: output_order[OF 1 2 3 4 5 6 7 8 9 10])
  then have "map comment_id (fst (get_video_comments example_service ''order'' empty_world))
     = [''A'', ''rA1'', ''rA2'', ''B'', ''rB1'']"
    by (simp add: thread_def reply_def)
  then show ?thesis using 1 2 by simp
qed




end
